theory Spec2Isabelle
  imports Main "HOL-Library.Sublist" "HOL-Library.AList"
begin

section \<open>Strings\<close>

text \<open>
  JavaScript strings are modelled as \<^typ>\<open>string\<close>: a character is a UTF-16 code unit
  below 256. \<open>s.includes(sub)\<close> is the contiguous substring test, \<open>s.startsWith(p)\<close> the
  prefix test. A string is falsy exactly when it is empty; an absent (\<open>undefined\<close>) value
  is \<open>None\<close>.
\<close>

definition includes_str :: "string \<Rightarrow> string \<Rightarrow> bool" where
  "includes_str s sub = sublist sub s"

definition startsWith :: "string \<Rightarrow> string \<Rightarrow> bool" where
  "startsWith s p = prefix p s"

definition truthy :: "string option \<Rightarrow> bool" where
  "truthy v = (case v of None \<Rightarrow> False | Some s \<Rightarrow> s \<noteq> [])"

definition digit :: "nat \<Rightarrow> char" where
  "digit d = ''0123456789'' ! d"

fun show_nat :: "nat \<Rightarrow> string" where
  "show_nat n = (if n < 10 then [digit n] else show_nat (n div 10) @ [digit (n mod 10)])"

declare show_nat.simps [simp del]

section \<open>Errors\<close>

text \<open>
  Every failure of the service is a JavaScript \<open>Error\<close> carrying a message. The
  constructors name the kinds the specification distinguishes; \<open>RuntimeError\<close> stands for
  the errors raised by the runtime itself (a rejected \<open>fetch\<close>, a body that is not JSON,
  a \<open>TypeError\<close>). \<open>error_message\<close> is the \<open>message\<close> property the retry logic inspects.
\<close>

datatype error =
    NoCredentialsConfigured
  | AllCredentialsExhausted nat
  | UpstreamRequestFailed string
  | ChannelNotFound
  | RuntimeError string

definition error_message :: "error \<Rightarrow> string" where
  "error_message e = (case e of
      NoCredentialsConfigured \<Rightarrow> ''Please configure at least one YouTube Data API key in Settings.''
    | AllCredentialsExhausted n \<Rightarrow>
        ''All '' @ show_nat n @ '' API key(s) failed, likely due to quota limits. Please try again later or add more keys.''
    | UpstreamRequestFailed m \<Rightarrow> m
    | ChannelNotFound \<Rightarrow> ''Could not find a YouTube channel for the given identifier.''
    | RuntimeError m \<Rightarrow> m)"

section \<open>Requests, responses and the service state\<close>

type_synonym params = "(string \<times> string) list"

record request =
  endpoint :: string
  query :: params

text \<open>
  The error payload of a non-success response, as far as the fetcher reads it:
  \<open>errorData.error?.errors?.[0]?.reason\<close> and \<open>errorData.error?.message\<close>.
\<close>

record api_error =
  reason :: "string option"
  message :: "string option"

text \<open>
  What one call of \<open>fetch\<close> can do: reject (a transport failure, with the message of the
  error), or resolve to a response that is not \<open>ok\<close>, or to one that is. In both of the
  latter cases \<open>response.json()\<close> either rejects (\<open>Inl\<close>, the message) or yields the
  parsed body (\<open>Inr\<close>).
\<close>

datatype 'a response =
    NetworkError string
  | NotOk "string + api_error"
  | Ok "string + 'a"

text \<open>
  The module-level variables \<open>apiKeys\<close> and \<open>currentKeyIndex\<close>, and a log of the requests
  issued so far (the model's only observation of the network).
\<close>

record state =
  apiKeys :: "string list"
  currentKeyIndex :: nat
  requests :: "request list"

section \<open>Credential pool\<close>

definition setApiKeys :: "string list \<Rightarrow> state \<Rightarrow> state" where
  "setApiKeys keys s = s\<lparr>apiKeys := keys, currentKeyIndex := 0\<rparr>"

text \<open>
  \<open>apiKeys[currentKeyIndex]\<close> reads \<open>undefined\<close> (\<open>None\<close>) when the index is out of range.
\<close>

definition getNextApiKey :: "state \<Rightarrow> (error + string option) \<times> state" where
  "getNextApiKey s =
     (if length (apiKeys s) = 0 then (Inl NoCredentialsConfigured, s)
      else
        let key = (if currentKeyIndex s < length (apiKeys s)
                   then Some (apiKeys s ! currentKeyIndex s) else None)
        in (Inr key, s\<lparr>currentKeyIndex := (currentKeyIndex s + 1) mod length (apiKeys s)\<rparr>))"

section \<open>Resilient fetcher\<close>

definition isQuotaReason :: "string option \<Rightarrow> bool" where
  "isQuotaReason r = (r = Some ''quotaExceeded'' \<or> r = Some ''dailyLimitExceeded'')"

definition upstream_message :: "api_error \<Rightarrow> string" where
  "upstream_message errorData =
     (if truthy (message errorData) then the (message errorData)
      else ''Failed to fetch data from YouTube API.'')"

text \<open>
  The log lines evaluate \<open>apiKey.slice(-4)\<close>, which throws a \<open>TypeError\<close> when the key is
  \<open>undefined\<close>.
\<close>

definition slice_of_undefined :: string where
  "slice_of_undefined = ''Cannot read properties of undefined (reading slice)''"

text \<open>
  How the \<open>try\<close> block of one attempt completes: it settles the call (\<open>Returned\<close>: a value,
  or the rejection of a promise returned without \<open>await\<close>, which the \<open>catch\<close> never sees),
  it throws into the \<open>catch\<close> block (\<open>Thrown\<close>), or it returns the recursive call with
  \<open>attempt + 1\<close> (\<open>Retry\<close>).
\<close>

datatype 'a completion =
    Returned "error + 'a"
  | Thrown error
  | Retry

definition try_block :: "nat \<Rightarrow> string option \<Rightarrow> 'a response \<Rightarrow> 'a completion" where
  "try_block poolSize apiKey response =
     (case response of
        NetworkError m \<Rightarrow> Thrown (RuntimeError m)
      | Ok body \<Rightarrow>
          (case body of
             Inl m \<Rightarrow> Returned (Inl (RuntimeError m))
           | Inr json \<Rightarrow> Returned (Inr json))
      | NotOk body \<Rightarrow>
          (case body of
             Inl m \<Rightarrow> Thrown (RuntimeError m)
           | Inr errorData \<Rightarrow>
               if isQuotaReason (reason errorData) \<and> poolSize > 1 then
                 (case apiKey of
                    None \<Rightarrow> Thrown (RuntimeError slice_of_undefined)
                  | Some k \<Rightarrow> Retry)
               else Thrown (UpstreamRequestFailed (upstream_message errorData))))"

definition catch_block :: "nat \<Rightarrow> nat \<Rightarrow> string option \<Rightarrow> error \<Rightarrow> 'a completion" where
  "catch_block poolSize attempt apiKey e =
     (if includes_str (error_message e) ''API key(s) failed'' then Returned (Inl e)
      else
        (case apiKey of
           None \<Rightarrow> Returned (Inl (RuntimeError slice_of_undefined))
         | Some k \<Rightarrow>
             if poolSize > 1 \<and> attempt < poolSize - 1 then Retry else Returned (Inl e)))"

definition attempt_once :: "nat \<Rightarrow> nat \<Rightarrow> string option \<Rightarrow> 'a response \<Rightarrow> 'a completion" where
  "attempt_once poolSize attempt apiKey response =
     (case try_block poolSize apiKey response of
        Thrown e \<Rightarrow> catch_block poolSize attempt apiKey e
      | c \<Rightarrow> c)"

text \<open>
  \<open>fetchYouTubeAPI\<close>. Its first argument stands for the upstream behind the global
  \<open>fetch\<close>: what it answers to a request, given the number of requests made before.
  A call is followed from start to end without other calls running between its
  \<open>await\<close> points, so pool and cursor change only through the call itself.
  \<open>URLSearchParams\<close> writes an \<open>undefined\<close> key as the text \<open>undefined\<close>.
\<close>

definition key_param :: "string option \<Rightarrow> string" where
  "key_param apiKey = (case apiKey of None \<Rightarrow> ''undefined'' | Some k \<Rightarrow> k)"

function fetchYouTubeAPI ::
  "(nat \<Rightarrow> request \<Rightarrow> 'a response) \<Rightarrow> string \<Rightarrow> params \<Rightarrow> nat \<Rightarrow> state \<Rightarrow> (error + 'a) \<times> state"
where
  "fetchYouTubeAPI fetch ep ps attempt s =
     (if attempt \<ge> length (apiKeys s) \<and> length (apiKeys s) > 0
      then (Inl (AllCredentialsExhausted (length (apiKeys s))), s)
      else
        (case getNextApiKey s of
           (Inl e, s1) \<Rightarrow> (Inl e, s1)
         | (Inr apiKey, s1) \<Rightarrow>
             let req = \<lparr>endpoint = ep, query = AList.update ''key'' (key_param apiKey) ps\<rparr>;
                 response = fetch (length (requests s1)) req;
                 s2 = s1\<lparr>requests := requests s1 @ [req]\<rparr>
             in (case attempt_once (length (apiKeys s2)) attempt apiKey response of
                   Retry \<Rightarrow> fetchYouTubeAPI fetch ep ps (attempt + 1) s2
                 | Returned r \<Rightarrow> (r, s2)
                 | Thrown e \<Rightarrow> (Inl e, s2))))"
  by pat_completeness auto
termination
  apply (relation "measure (\<lambda>(fetch, ep, ps, attempt, s). length (apiKeys s) - attempt)")
   apply simp
  apply (auto simp: getNextApiKey_def Let_def split: if_splits)
  done

declare fetchYouTubeAPI.simps [simp del]

section \<open>Upstream payloads\<close>

text \<open>
  The service reads the parsed JSON as \<open>any\<close>. The model types each payload by what the
  code reads from it: a property the code guards (\<open>data.items &&\<close>, \<open>high?.url\<close>,
  a truthiness test) or that the data model declares absent-able is an \<open>option\<close>; an
  intermediate object the code dereferences without a guard is taken to be present.
  Reading a property of an absent value is the \<open>TypeError\<close> below.
\<close>

definition type_error :: error where
  "type_error = RuntimeError ''TypeError: cannot read properties of undefined''"

record 'a listing =
  items :: "'a list option"
  nextPageToken :: "string option"

record channel_item =
  channel_id :: string

record search_item =
  id_videoId :: "string option"
  snippet_channelId :: "string option"

record thumbnails =
  high_url :: "string option"
  default_url :: string

record snippet =
  snippet_publishedAt :: string
  snippet_title :: string
  snippet_description :: string
  snippet_thumbnails :: thumbnails

record video_item =
  video_id :: string
  video_snippet :: snippet
  statistics_viewCount :: "string option"
  statistics_likeCount :: "string option"
  statistics_commentCount :: "string option"

record playlist_item =
  playlist_snippet :: snippet
  resourceId_videoId :: string

record VideoStat =
  id' :: string
  publishedAt :: string
  title :: string
  description :: string
  thumbnailUrl :: string
  viewCount :: "string option"
  likeCount :: "string option"
  commentCount :: "string option"

text \<open>
  The environment of the service: what the upstream API answers on each of its four
  endpoints to the \<open>n\<close>-th request of the run, and \<open>new Date(s).getTime()\<close>, whose result
  is \<open>None\<close> for \<open>NaN\<close>.
\<close>

record env =
  channelsEndpoint :: "nat \<Rightarrow> request \<Rightarrow> channel_item listing response"
  searchEndpoint :: "nat \<Rightarrow> request \<Rightarrow> search_item listing response"
  videosEndpoint :: "nat \<Rightarrow> request \<Rightarrow> video_item listing response"
  playlistItemsEndpoint :: "nat \<Rightarrow> request \<Rightarrow> playlist_item listing response"
  getTime :: "string \<Rightarrow> int option"

section \<open>Channel resolver\<close>

text \<open>The parameter objects of the two requests of the resolver.\<close>

definition usernameParams :: "string \<Rightarrow> params" where
  "usernameParams channelIdentifier = [(''part'', ''id''), (''forUsername'', channelIdentifier)]"

definition channelSearchParams :: "string \<Rightarrow> params" where
  "channelSearchParams channelIdentifier =
     [(''part'', ''snippet''), (''q'', channelIdentifier), (''type'', ''channel'')]"

text \<open>The second half of \<open>resolveChannelId\<close>: the free-text search and its result.\<close>

definition searchChannel :: "env \<Rightarrow> string \<Rightarrow> state \<Rightarrow> (error + string) \<times> state" where
  "searchChannel w channelIdentifier s =
     (case fetchYouTubeAPI (searchEndpoint w) ''search'' (channelSearchParams channelIdentifier) 0 s of
        (Inl e, s1) \<Rightarrow> (Inl e, s1)
      | (Inr searchData, s1) \<Rightarrow>
          (case items searchData of
             Some (first # rest) \<Rightarrow>
               if truthy (snippet_channelId first)
               then (Inr (the (snippet_channelId first)), s1)
               else (Inl ChannelNotFound, s1)
           | _ \<Rightarrow> (Inl ChannelNotFound, s1)))"

definition resolveChannelId :: "env \<Rightarrow> string \<Rightarrow> state \<Rightarrow> (error + string) \<times> state" where
  "resolveChannelId w channelIdentifier s =
     (if startsWith channelIdentifier ''UC'' then (Inr channelIdentifier, s)
      else
        (case fetchYouTubeAPI (channelsEndpoint w) ''channels'' (usernameParams channelIdentifier) 0 s of
           (Inl e, s1) \<Rightarrow> searchChannel w channelIdentifier s1
         | (Inr data, s1) \<Rightarrow>
             (case items data of
                Some (first # rest) \<Rightarrow> (Inr (channel_id first), s1)
              | _ \<Rightarrow> searchChannel w channelIdentifier s1)))"

section \<open>Paginated videos\<close>

fun join :: "string \<Rightarrow> string list \<Rightarrow> string" where
  "join sep [] = []"
| "join sep [x] = x"
| "join sep (x # y # ys) = x @ sep @ join sep (y # ys)"

record video_page =
  videos :: "VideoStat list"
  pageNextPageToken :: "string option"

definition toVideoStat :: "video_item \<Rightarrow> VideoStat option" where
  "toVideoStat item =
     (case high_url (snippet_thumbnails (video_snippet item)) of
        None \<Rightarrow> None
      | Some url \<Rightarrow>
          Some \<lparr>id' = video_id item,
                publishedAt = snippet_publishedAt (video_snippet item),
                title = snippet_title (video_snippet item),
                description = snippet_description (video_snippet item),
                thumbnailUrl = url,
                viewCount = statistics_viewCount item,
                likeCount = statistics_likeCount item,
                commentCount = statistics_commentCount item\<rparr>)"

definition searchParams :: "string \<Rightarrow> nat \<Rightarrow> string option \<Rightarrow> params" where
  "searchParams channelId maxResults pageToken =
     (let ps = [(''part'', ''id''), (''channelId'', channelId), (''maxResults'', show_nat maxResults),
                (''order'', ''date''), (''type'', ''video'')]
      in if truthy pageToken then AList.update ''pageToken'' (the pageToken) ps else ps)"

definition getChannelVideos ::
  "env \<Rightarrow> string \<Rightarrow> nat \<Rightarrow> string option \<Rightarrow> state \<Rightarrow> (error + video_page) \<times> state"
where
  "getChannelVideos w channelId maxResults pageToken s =
     (let searchData_result =
            fetchYouTubeAPI (searchEndpoint w) ''search'' (searchParams channelId maxResults pageToken) 0 s
      in
        (case searchData_result of
           (Inl e, s1) \<Rightarrow> (Inl e, s1)
         | (Inr searchData, s1) \<Rightarrow>
             (case items searchData of
                None \<Rightarrow> (Inl type_error, s1)
              | Some found \<Rightarrow>
                  let videoIds =
                        join '','' (map (\<lambda>item. case id_videoId item of None \<Rightarrow> [] | Some v \<Rightarrow> v) found)
                  in
                    if videoIds = [] then (Inr \<lparr>videos = [], pageNextPageToken = None\<rparr>, s1)
                    else
                      (case fetchYouTubeAPI (videosEndpoint w) ''videos''
                              [(''part'', ''snippet,statistics''), (''id'', videoIds)] 0 s1 of
                         (Inl e, s2) \<Rightarrow> (Inl e, s2)
                       | (Inr videosData, s2) \<Rightarrow>
                           (case items videosData of
                              None \<Rightarrow> (Inl type_error, s2)
                            | Some hydrated \<Rightarrow>
                                (case those (map toVideoStat hydrated) of
                                   None \<Rightarrow> (Inl type_error, s2)
                                 | Some vs \<Rightarrow>
                                     (Inr \<lparr>videos = vs,
                                           pageNextPageToken = nextPageToken searchData\<rparr>, s2)))))))"

section \<open>Oldest video\<close>

text \<open>
  The comparator handed to \<open>Array.prototype.sort\<close> is the difference of the two publish
  instants; when either is \<open>NaN\<close> the difference is \<open>NaN\<close>, which the sort reads as \<open>+0\<close>.
  The sort is stable. It is modelled as a stable insertion sort driven by the comparator;
  for a comparator that is not consistent (some but not all instants \<open>NaN\<close>) ECMAScript
  leaves the order to the engine, and the model's order is then only one possible outcome.
\<close>

definition compareByPublishedAt :: "(string \<Rightarrow> int option) \<Rightarrow> playlist_item \<Rightarrow> playlist_item \<Rightarrow> int" where
  "compareByPublishedAt tm a b =
     (case (tm (snippet_publishedAt (playlist_snippet a)), tm (snippet_publishedAt (playlist_snippet b))) of
        (Some x, Some y) \<Rightarrow> x - y
      | _ \<Rightarrow> 0)"

fun insert_by :: "('a \<Rightarrow> 'a \<Rightarrow> int) \<Rightarrow> 'a \<Rightarrow> 'a list \<Rightarrow> 'a list" where
  "insert_by cmp x [] = [x]"
| "insert_by cmp x (y # ys) = (if cmp x y \<le> 0 then x # y # ys else y # insert_by cmp x ys)"

definition sort_by :: "('a \<Rightarrow> 'a \<Rightarrow> int) \<Rightarrow> 'a list \<Rightarrow> 'a list" where
  "sort_by cmp xs = foldr (insert_by cmp) xs []"

definition playlistVideo :: "playlist_item \<Rightarrow> VideoStat" where
  "playlistVideo item =
     (let snip = playlist_snippet item in
      \<lparr>id' = resourceId_videoId item,
       publishedAt = snippet_publishedAt snip,
       title = snippet_title snip,
       description = snippet_description snip,
       thumbnailUrl =
         (if truthy (high_url (snippet_thumbnails snip)) then the (high_url (snippet_thumbnails snip))
          else default_url (snippet_thumbnails snip)),
       viewCount = Some ''0'',
       likeCount = Some ''0'',
       commentCount = Some ''0''\<rparr>)"

definition firstPageParams :: "string \<Rightarrow> params" where
  "firstPageParams playlistId =
     [(''part'', ''snippet''), (''playlistId'', playlistId), (''maxResults'', ''50'')]"

text \<open>The body of the \<open>try\<close> block of \<open>getOldestVideo\<close>.\<close>

definition getOldestVideo_try ::
  "env \<Rightarrow> string \<Rightarrow> state \<Rightarrow> (error + VideoStat option) \<times> state"
where
  "getOldestVideo_try w playlistId s =
     (case fetchYouTubeAPI (playlistItemsEndpoint w) ''playlistItems'' (firstPageParams playlistId) 0 s of
        (Inl e, s1) \<Rightarrow> (Inl e, s1)
      | (Inr playlistData, s1) \<Rightarrow>
          (case items playlistData of
             None \<Rightarrow> (Inr None, s1)
           | Some [] \<Rightarrow> (Inr None, s1)
           | Some (x # xs) \<Rightarrow>
               (case sort_by (compareByPublishedAt (getTime w)) (x # xs) of
                  [] \<Rightarrow> (Inl type_error, s1)
                | first # rest \<Rightarrow> (Inr (Some (playlistVideo first)), s1))))"

definition getOldestVideo ::
  "env \<Rightarrow> string \<Rightarrow> state \<Rightarrow> (error + VideoStat option) \<times> state"
where
  "getOldestVideo w playlistId s =
     (case getOldestVideo_try w playlistId s of
        (Inl e, s1) \<Rightarrow> (Inr None, s1)
      | (Inr video, s1) \<Rightarrow> (Inr video, s1))"

section \<open>Oldest video in a date range\<close>

definition inRange :: "int option \<Rightarrow> int option \<Rightarrow> int option \<Rightarrow> bool" where
  "inRange startDateTime endDateTime publishedAtTime =
     (case (publishedAtTime, startDateTime, endDateTime) of
        (Some t, Some a, Some b) \<Rightarrow> t \<ge> a \<and> t \<le> b
      | _ \<Rightarrow> False)"

definition itemInRange :: "env \<Rightarrow> int option \<Rightarrow> int option \<Rightarrow> playlist_item \<Rightarrow> bool" where
  "itemInRange w startDateTime endDateTime item =
     inRange startDateTime endDateTime (getTime w (snippet_publishedAt (playlist_snippet item)))"

definition pageParams :: "string \<Rightarrow> string option \<Rightarrow> params" where
  "pageParams playlistId pageToken =
     (let ps = [(''part'', ''snippet''), (''playlistId'', playlistId), (''maxResults'', ''50'')]
      in if truthy pageToken then AList.update ''pageToken'' (the pageToken) ps else ps)"

text \<open>
  The \<open>do ... while (nextPageToken)\<close> loop. Nothing bounds the number of pages the
  upstream may announce, so the loop is a partial function: \<open>None\<close> is a run that never
  returns.
\<close>

partial_function (option) scanUploads ::
  "env \<Rightarrow> string \<Rightarrow> int option \<Rightarrow> int option \<Rightarrow> string option \<Rightarrow> state
    \<Rightarrow> ((error + VideoStat option) \<times> state) option"
where
  "scanUploads w playlistId startDateTime endDateTime pageToken s =
     (case fetchYouTubeAPI (playlistItemsEndpoint w) ''playlistItems''
             (pageParams playlistId pageToken) 0 s of
        (Inl e, s1) \<Rightarrow> Some (Inl e, s1)
      | (Inr data, s1) \<Rightarrow>
          (case items data of
             None \<Rightarrow> Some (Inl type_error, s1)
           | Some page \<Rightarrow>
               (case find (itemInRange w startDateTime endDateTime) page of
                  Some item \<Rightarrow> Some (Inr (Some (playlistVideo item)), s1)
                | None \<Rightarrow>
                    if truthy (nextPageToken data)
                    then scanUploads w playlistId startDateTime endDateTime (nextPageToken data) s1
                    else Some (Inr None, s1))))"

definition getOldestVideoInRange ::
  "env \<Rightarrow> string \<Rightarrow> string option \<Rightarrow> string option \<Rightarrow> state
    \<Rightarrow> ((error + VideoStat option) \<times> state) option"
where
  "getOldestVideoInRange w playlistId startDate endDate s =
     (if \<not> truthy startDate \<or> \<not> truthy endDate then Some (getOldestVideo w playlistId s)
      else scanUploads w playlistId (getTime w (the startDate)) (getTime w (the endDate)) None s)"

section \<open>Number formatting\<close>

text \<open>
  A JavaScript number is a double. The model covers \<open>NaN\<close> and the safe integers, those of
  magnitude below \<open>2^53\<close>, which a double holds exactly and \<open>toString\<close> prints digit by
  digit; the counts the dashboard formats are such integers. Every other double (a
  fraction, an infinity, an integer of larger magnitude) is \<open>OtherDouble\<close>: the model does
  not say how it is printed, and \<open>formatNumber\<close> answers \<open>None\<close> for it.
\<close>

datatype number = NaN | Number int | OtherDouble

definition isSafeInteger :: "int \<Rightarrow> bool" where
  "isSafeInteger n = (\<bar>n\<bar> < 2 ^ 53)"

datatype num_or_string = OfNumber number | OfString string

definition show_int :: "int \<Rightarrow> string" where
  "show_int i = (if i < 0 then ''-'' @ show_nat (nat (- i)) else show_nat (nat i))"

text \<open>
  \<open>parseInt(s, 10)\<close>: leading white space is skipped, then an optional sign, then the
  longest run of decimal digits; no digit at all gives \<open>NaN\<close>. The white space of
  ECMAScript below code unit 256 is tab, line feed, vertical tab, form feed, carriage
  return, space and no-break space. The digits denote an integer, which \<open>parseInt\<close> rounds
  to a double: a safe integer is kept as it is, a larger one is an \<open>OtherDouble\<close>.
\<close>

definition isWhiteSpace :: "char \<Rightarrow> bool" where
  "isWhiteSpace c =
     (c \<in> set [CHR 0x09, CHR 0x0A, CHR 0x0B, CHR 0x0C, CHR 0x0D, CHR 0x20, CHR 0xA0])"

definition isDigit :: "char \<Rightarrow> bool" where
  "isDigit c = ((48::nat) \<le> of_char c \<and> (of_char c :: nat) \<le> 57)"

definition digits_value :: "string \<Rightarrow> nat" where
  "digits_value ds = foldl (\<lambda>acc c. 10 * acc + (of_char c - 48)) 0 ds"

definition parseInt10 :: "string \<Rightarrow> number" where
  "parseInt10 str =
     (let s = dropWhile isWhiteSpace str;
          negative = (s \<noteq> [] \<and> hd s = CHR ''-'');
          body = (if s \<noteq> [] \<and> (hd s = CHR ''-'' \<or> hd s = CHR ''+'') then tl s else s);
          ds = takeWhile isDigit body
      in if ds = [] then NaN
         else if \<not> isSafeInteger (int (digits_value ds)) then OtherDouble
         else Number (if negative then - int (digits_value ds) else int (digits_value ds)))"

text \<open>
  A positive double as a pair \<open>(m, sh)\<close> of value \<open>m / 2^sh\<close>. \<open>double_div p q\<close> is the
  IEEE-754 quotient of the integers \<open>p \<ge> q > 0\<close> (both below \<open>2^53\<close>): the 53-bit
  significand nearest to \<open>p / q\<close>, ties to the even one.
\<close>

fun ilog2 :: "nat \<Rightarrow> nat" where
  "ilog2 n = (if n < 2 then 0 else Suc (ilog2 (n div 2)))"

declare ilog2.simps [simp del]

definition round_half_even :: "nat \<Rightarrow> nat \<Rightarrow> nat" where
  "round_half_even a b =
     (let q = a div b; r = a mod b
      in if 2 * r < b then q
         else if 2 * r > b then q + 1
         else if even q then q else q + 1)"

definition double_div :: "nat \<Rightarrow> nat \<Rightarrow> nat \<times> nat" where
  "double_div p q =
     (let sh = 52 - ilog2 (p div q)
      in (round_half_even (p * 2 ^ sh) q, sh))"

text \<open>
  \<open>x.toFixed(1)\<close>: the integer \<open>n\<close> with \<open>n / 10\<close> closest to \<open>x\<close>, the larger one on a
  tie, printed with a point before its last digit.
\<close>

definition toFixed1 :: "nat \<times> nat \<Rightarrow> string" where
  "toFixed1 x =
     (case x of (m, sh) \<Rightarrow>
        let n = (20 * m + 2 ^ sh) div 2 ^ (sh + 1)
        in show_nat (n div 10) @ ''.'' @ [digit (n mod 10)])"

text \<open>\<open>s.replace(/\.0$/, '')\<close>\<close>

definition strip_dot_zero :: "string \<Rightarrow> string" where
  "strip_dot_zero s = (if suffix ''.0'' s then take (length s - 2) s else s)"

definition formatNumber :: "num_or_string \<Rightarrow> string option" where
  "formatNumber num =
     (let number = (case num of OfString str \<Rightarrow> parseInt10 str | OfNumber n \<Rightarrow> n)
      in case number of
           NaN \<Rightarrow> Some ''0''
         | OtherDouble \<Rightarrow> None
         | Number n \<Rightarrow>
             if \<not> isSafeInteger n then None
             else if n \<ge> 1000000
             then Some (strip_dot_zero (toFixed1 (double_div (nat n) 1000000)) @ ''M'')
             else if n \<ge> 1000
             then Some (strip_dot_zero (toFixed1 (double_div (nat n) 1000)) @ ''K'')
             else Some (show_int n))"

section \<open>Observing the service\<close>

text \<open>
  \<open>selections n\<close> performs \<open>n\<close> consecutive calls of \<open>getNextApiKey\<close> and collects what each
  returned. \<open>fresh\<close> is the state of the module when it is loaded.
\<close>

fun selections :: "nat \<Rightarrow> state \<Rightarrow> (error + string option) list \<times> state" where
  "selections 0 s = ([], s)"
| "selections (Suc n) s =
     (case getNextApiKey s of (r, s1) \<Rightarrow>
        (case selections n s1 of (rs, s2) \<Rightarrow> (r # rs, s2)))"

definition fresh :: state where
  "fresh = \<lparr>apiKeys = [], currentKeyIndex = 0, requests = []\<rparr>"

text \<open>
  The invariant of the pool: when it is not empty the cursor points into it.
\<close>

definition cursor_ok :: "state \<Rightarrow> bool" where
  "cursor_ok s = (apiKeys s = [] \<or> currentKeyIndex s < length (apiKeys s))"

text \<open>
  With the cursor in range, \<open>issued ep ps s\<close> is the request the next attempt sends and
  \<open>advance req s\<close> the state it leaves: the cursor moved on and the request logged.
\<close>

definition issued :: "string \<Rightarrow> params \<Rightarrow> state \<Rightarrow> request" where
  "issued ep ps s = \<lparr>endpoint = ep, query = AList.update ''key'' (apiKeys s ! currentKeyIndex s) ps\<rparr>"

definition advance :: "request \<Rightarrow> state \<Rightarrow> state" where
  "advance req s =
     s\<lparr>currentKeyIndex := (currentKeyIndex s + 1) mod length (apiKeys s),
       requests := requests s @ [req]\<rparr>"

text \<open>A response that reports a quota-class failure reason.\<close>

definition quotaFailure :: "'a response \<Rightarrow> bool" where
  "quotaFailure r = (case r of NotOk (Inr errorData) \<Rightarrow> isQuotaReason (reason errorData) | _ \<Rightarrow> False)"

text \<open>Upstream behaviours used as concrete examples.\<close>

definition always_quota :: "nat \<Rightarrow> request \<Rightarrow> unit response" where
  "always_quota n r = NotOk (Inr \<lparr>reason = Some ''quotaExceeded'', message = Some ''Quota exceeded''\<rparr>)"

definition forbidden_then_ok :: "nat \<Rightarrow> request \<Rightarrow> unit response" where
  "forbidden_then_ok n r =
     (if n = 0 then NotOk (Inr \<lparr>reason = Some ''forbidden'', message = Some ''Forbidden''\<rparr>)
      else Ok (Inr ()))"

definition always_forbidden :: "nat \<Rightarrow> request \<Rightarrow> unit response" where
  "always_forbidden n r = NotOk (Inr \<lparr>reason = Some ''forbidden'', message = Some ''Forbidden''\<rparr>)"

text \<open>
  The canonical channel-identifier shape, in the words of the specification's glossary:
  24 characters, \<open>UC\<close>-prefixed.
\<close>

definition canonical_shape :: "string \<Rightarrow> bool" where
  "canonical_shape identifier = (length identifier = 24 \<and> prefix ''UC'' identifier)"

text \<open>Concrete environments for the examples.\<close>

definition offline :: env where
  "offline = \<lparr>channelsEndpoint = (\<lambda>n r. NetworkError ''offline''),
              searchEndpoint = (\<lambda>n r. NetworkError ''offline''),
              videosEndpoint = (\<lambda>n r. NetworkError ''offline''),
              playlistItemsEndpoint = (\<lambda>n r. NetworkError ''offline''),
              getTime = (\<lambda>d. None)\<rparr>"

definition no_items :: "'a listing" where
  "no_items = \<lparr>items = Some [], nextPageToken = None\<rparr>"

definition handle_found :: env where
  "handle_found = offline
     \<lparr>channelsEndpoint := (\<lambda>n r. Ok (Inr no_items)),
      searchEndpoint := (\<lambda>n r. Ok (Inr \<lparr>items = Some [\<lparr>id_videoId = None, snippet_channelId = Some ''UC123''\<rparr>],
                                        nextPageToken = None\<rparr>))\<rparr>"

definition handle_unknown :: env where
  "handle_unknown = offline
     \<lparr>channelsEndpoint := (\<lambda>n r. NotOk (Inr \<lparr>reason = Some ''badRequest'', message = Some ''Bad Request''\<rparr>)),
      searchEndpoint := (\<lambda>n r. Ok (Inr no_items))\<rparr>"

definition one_key :: state where
  "one_key = setApiKeys [''k1''] fresh"

text \<open>
  The outcome of the legacy-username lookup that makes the resolver fall back: the fetch
  failed, or its body has no \<open>items\<close> or an empty list of them.
\<close>

definition noMatch :: "error + channel_item listing \<Rightarrow> bool" where
  "noMatch lookup = (case lookup of Inl e \<Rightarrow> True | Inr data \<Rightarrow> items data = None \<or> items data = Some [])"

definition no_videos :: env where
  "no_videos = offline\<lparr>searchEndpoint := (\<lambda>n r. Ok (Inr no_items))\<rparr>"

text \<open>The publish instant of an uploads item, \<open>None\<close> when its date does not parse.\<close>

definition publishedAtTime :: "env \<Rightarrow> playlist_item \<Rightarrow> int option" where
  "publishedAtTime w item = getTime w (snippet_publishedAt (playlist_snippet item))"

text \<open>
  \<open>serves w playlistId pageToken s pages s'\<close>: starting in state \<open>s\<close> with the given page token,
  successive page fetches of the uploads collection succeed and deliver \<open>pages\<close> in this
  order, each page but the last announcing the next one, and leave state \<open>s'\<close>.
  \<open>collection pages\<close> is the items of these pages in collection order.
\<close>

fun serves :: "env \<Rightarrow> string \<Rightarrow> string option \<Rightarrow> state \<Rightarrow> playlist_item listing list \<Rightarrow> state \<Rightarrow> bool" where
  "serves w playlistId pageToken s [] s' = False"
| "serves w playlistId pageToken s [page] s' =
     (fetchYouTubeAPI (playlistItemsEndpoint w) ''playlistItems'' (pageParams playlistId pageToken) 0 s
        = (Inr page, s'))"
| "serves w playlistId pageToken s (page # page2 # later) s' =
     (case fetchYouTubeAPI (playlistItemsEndpoint w) ''playlistItems'' (pageParams playlistId pageToken) 0 s of
        (Inr data, s1) \<Rightarrow>
          data = page \<and> truthy (nextPageToken page)
          \<and> serves w playlistId (nextPageToken page) s1 (page2 # later) s'
      | (Inl e, s1) \<Rightarrow> False)"

definition collection :: "playlist_item listing list \<Rightarrow> playlist_item list" where
  "collection pages = concat (map (\<lambda>page. case items page of None \<Rightarrow> [] | Some xs \<Rightarrow> xs) pages)"

text \<open>An uploads collection of two pages, not in chronological order.\<close>

definition example_getTime :: "string \<Rightarrow> int option" where
  "example_getTime = map_of
     [(''2019-03-01T00:00:00Z'', 1551398400000),
      (''2020-01-01T00:00:00Z'', 1577836800000),
      (''2020-02-15T00:00:00Z'', 1581724800000),
      (''2020-03-10T00:00:00Z'', 1583798400000),
      (''2020-12-31T00:00:00Z'', 1609372800000),
      (''2021-05-05T00:00:00Z'', 1620172800000),
      (''2022-01-01T00:00:00Z'', 1640995200000),
      (''2022-12-31T00:00:00Z'', 1672444800000)]"

definition upload :: "string \<Rightarrow> string \<Rightarrow> playlist_item" where
  "upload videoId date =
     \<lparr>playlist_snippet =
        \<lparr>snippet_publishedAt = date, snippet_title = videoId, snippet_description = [],
         snippet_thumbnails = \<lparr>high_url = None, default_url = ''default.jpg''\<rparr>\<rparr>,
      resourceId_videoId = videoId\<rparr>"

definition page1 :: "playlist_item listing" where
  "page1 = \<lparr>items = Some [upload ''v1'' ''2021-05-05T00:00:00Z'', upload ''v2'' ''2019-03-01T00:00:00Z''],
            nextPageToken = Some ''P2''\<rparr>"

definition page2 :: "playlist_item listing" where
  "page2 = \<lparr>items = Some [upload ''v3'' ''2020-03-10T00:00:00Z'', upload ''v4'' ''2020-02-15T00:00:00Z''],
            nextPageToken = None\<rparr>"

definition two_pages :: env where
  "two_pages = offline
     \<lparr>playlistItemsEndpoint :=
        (\<lambda>n r. if map_of (query r) ''pageToken'' = Some ''P2'' then Ok (Inr page2) else Ok (Inr page1)),
      getTime := example_getTime\<rparr>"


definition after_second_page :: state where
  "after_second_page =
     \<lparr>apiKeys = [''k1''], currentKeyIndex = 0,
       requests = [issued ''playlistItems'' (pageParams ''UU1'' None) one_key,
                   issued ''playlistItems'' (pageParams ''UU1'' (Some ''P2'')) one_key]\<rparr>"


text \<open>
  The abbreviated form in the words of the specification: \<open>t\<close> tenths written to one
  decimal place, a trailing \<open>.0\<close> suppressed.
\<close>

definition one_decimal :: "nat \<Rightarrow> string" where
  "one_decimal t = show_nat (t div 10) @ (if t mod 10 = 0 then [] else ''.'' @ [digit (t mod 10)])"

section \<open>The credential pool rotates round-robin\<close>

lemma getNextApiKey_in_range:
  assumes "currentKeyIndex s < length (apiKeys s)"
  shows "getNextApiKey s =
           (Inr (Some (apiKeys s ! currentKeyIndex s)),
            s\<lparr>currentKeyIndex := (currentKeyIndex s + 1) mod length (apiKeys s)\<rparr>)"
  using assms by (auto simp: getNextApiKey_def)

lemma selections_cycle:
  assumes "currentKeyIndex s < length (apiKeys s)"
  shows "fst (selections n s) =
           map (\<lambda>j. Inr (Some (apiKeys s ! ((currentKeyIndex s + j) mod length (apiKeys s))))) [0..<n]"
  using assms
proof (induction n arbitrary: s)
  case 0
  show ?case by simp
next
  case (Suc n)
  let ?N = "length (apiKeys s)"
  let ?s1 = "s\<lparr>currentKeyIndex := Suc (currentKeyIndex s) mod ?N\<rparr>"
  have pos: "0 < ?N" using Suc.prems by auto
  have step: "getNextApiKey s = (Inr (Some (apiKeys s ! currentKeyIndex s)), ?s1)"
    using getNextApiKey_in_range [OF Suc.prems] by simp
  have in_range: "currentKeyIndex ?s1 < length (apiKeys ?s1)"
    using pos by simp
  have shift: "(Suc (currentKeyIndex s) mod ?N + j) mod ?N = (currentKeyIndex s + Suc j) mod ?N" for j
    by (simp add: mod_add_left_eq)
  have ih: "fst (selections n ?s1) =
      map (\<lambda>j. Inr (Some (apiKeys s ! ((currentKeyIndex s + Suc j) mod ?N)))) [0..<n]"
    using Suc.IH [OF in_range] by (simp add: shift)
  have head: "apiKeys s ! currentKeyIndex s = apiKeys s ! ((currentKeyIndex s + 0) mod ?N)"
    using Suc.prems by simp
  have "fst (selections (Suc n) s) =
      Inr (Some (apiKeys s ! currentKeyIndex s)) # fst (selections n ?s1)"
    by (simp add: step split: prod.splits)
  also have "\<dots> = Inr (Some (apiKeys s ! ((currentKeyIndex s + 0) mod ?N)))
       # map (\<lambda>j. Inr (Some (apiKeys s ! ((currentKeyIndex s + Suc j) mod ?N)))) [0..<n]"
    by (simp only: ih head)
  also have "\<dots> = map (\<lambda>j. Inr (Some (apiKeys s ! ((currentKeyIndex s + j) mod ?N)))) [0..<Suc n]"
    by (rule map_upt_Suc [symmetric])
  finally show ?case .
qed

text \<open>
  Claim C3. For a freshly configured non-empty pool of \<open>N\<close> keys, \<open>N\<close> consecutive
  selections return the keys once each in insertion order and selection \<open>N + 1\<close> returns the
  first key again; on an empty pool the selection fails with \<open>NoCredentialsConfigured\<close>
  and leaves the state as it was.
\<close>

theorem round_robin_selection:
  "(keys \<noteq> [] \<longrightarrow>
      fst (selections (Suc (length keys)) (setApiKeys keys s)) = map (\<lambda>k. Inr (Some k)) (keys @ [hd keys]))
   \<and> (apiKeys s = [] \<longrightarrow> getNextApiKey s = (Inl NoCredentialsConfigured, s))"
proof (intro conjI impI)
  assume ne: "keys \<noteq> []"
  let ?s = "setApiKeys keys s"
  let ?N = "length keys"
  have r: "currentKeyIndex ?s < length (apiKeys ?s)"
    using ne by (simp add: setApiKeys_def)
  have "fst (selections (Suc ?N) ?s) = map (\<lambda>j. Inr (Some (keys ! (j mod ?N)))) [0..<Suc ?N]"
    using selections_cycle [OF r, of "Suc ?N"] by (simp add: setApiKeys_def)
  also have "\<dots> = map (\<lambda>j. Inr (Some (keys ! j))) [0..<?N] @ [Inr (Some (keys ! 0))]"
    by simp
  also have "map (\<lambda>j. Inr (Some (keys ! j))) [0..<?N] = map (\<lambda>k. Inr (Some k)) (map (nth keys) [0..<?N])"
    by (simp add: comp_def)
  also have "map (nth keys) [0..<?N] = keys" by (rule map_nth)
  finally show "fst (selections (Suc ?N) ?s) = map (\<lambda>k. Inr (Some k)) (keys @ [hd keys])"
    using ne by (simp add: hd_conv_nth)
next
  assume "apiKeys s = []"
  then show "getNextApiKey s = (Inl NoCredentialsConfigured, s)"
    by (simp add: getNextApiKey_def)
qed

theorem round_robin_selection_witness:
  "[''k1'', ''k2'', ''k3''] \<noteq> []
   \<and> fst (selections (Suc (length [''k1'', ''k2'', ''k3''])) (setApiKeys [''k1'', ''k2'', ''k3''] fresh))
       = [Inr (Some ''k1''), Inr (Some ''k2''), Inr (Some ''k3''), Inr (Some ''k1'')]
   \<and> apiKeys fresh = []
   \<and> getNextApiKey fresh = (Inl NoCredentialsConfigured, fresh)"
  using round_robin_selection [of "[''k1'', ''k2'', ''k3'']" fresh]
  by (simp add: fresh_def)

section \<open>The resilient fetcher\<close>

text \<open>
  \<open>setApiKeys\<close> establishes the invariant of the pool, and \<open>getNextApiKey\<close> and
  \<open>fetchYouTubeAPI\<close> keep it and leave the pool as it is: a state reached through them
  never reads a key out of range.
\<close>

lemma setApiKeys_cursor_ok: "cursor_ok (setApiKeys keys s)"
  by (cases keys) (simp_all add: cursor_ok_def setApiKeys_def)

lemma getNextApiKey_cursor_ok:
  "cursor_ok s \<Longrightarrow> cursor_ok (snd (getNextApiKey s)) \<and> apiKeys (snd (getNextApiKey s)) = apiKeys s"
  by (auto simp: cursor_ok_def getNextApiKey_def Let_def)

lemma fetchYouTubeAPI_cursor_ok:
  "cursor_ok s \<Longrightarrow>
     cursor_ok (snd (fetchYouTubeAPI fetch ep ps attempt s))
     \<and> apiKeys (snd (fetchYouTubeAPI fetch ep ps attempt s)) = apiKeys s"
proof (induction fetch ep ps attempt s rule: fetchYouTubeAPI.induct)
  case (1 fetch ep ps attempt s)
  show ?case
  proof (cases "attempt \<ge> length (apiKeys s) \<and> length (apiKeys s) > 0")
    case True
    then show ?thesis using "1.prems" by (subst (1 2) fetchYouTubeAPI.simps) simp
  next
    case False
    show ?thesis
    proof (cases "getNextApiKey s")
      case (Pair r s1)
      have s1: "cursor_ok s1" "apiKeys s1 = apiKeys s"
        using getNextApiKey_cursor_ok [OF "1.prems"] Pair by simp_all
      show ?thesis
      proof (cases r)
        case (Inl e)
        then show ?thesis using False Pair s1 "1.prems" by (subst (1 2) fetchYouTubeAPI.simps) auto
      next
        case (Inr apiKey)
        let ?req = "\<lparr>endpoint = ep, query = AList.update ''key'' (key_param apiKey) ps\<rparr>"
        let ?s2 = "s1\<lparr>requests := requests s1 @ [?req]\<rparr>"
        have s2: "cursor_ok ?s2" "apiKeys ?s2 = apiKeys s"
          using s1 by (simp_all add: cursor_ok_def)
        show ?thesis
        proof (cases "attempt_once (length (apiKeys ?s2)) attempt apiKey (fetch (length (requests s1)) ?req)")
          case Retry
          have ih: "cursor_ok (snd (fetchYouTubeAPI fetch ep ps (attempt + 1) ?s2))
              \<and> apiKeys (snd (fetchYouTubeAPI fetch ep ps (attempt + 1) ?s2)) = apiKeys ?s2"
            using "1.IH" [OF False Pair [symmetric] Inr refl refl refl Retry s2(1)] .
          show ?thesis
            using False Pair Inr Retry ih s2 "1.prems"
            by (subst (1 2) fetchYouTubeAPI.simps) (auto simp: Let_def)
        next
          case (Returned x)
          then show ?thesis using False Pair Inr s2 "1.prems"
            by (subst (1 2) fetchYouTubeAPI.simps) (auto simp: Let_def)
        next
          case (Thrown x)
          then show ?thesis using False Pair Inr s2 "1.prems"
            by (subst (1 2) fetchYouTubeAPI.simps) (auto simp: Let_def)
        qed
      qed
    qed
  qed
qed

lemma fetch_exhausted:
  assumes "length (apiKeys s) \<le> attempt" "0 < length (apiKeys s)"
  shows "fetchYouTubeAPI fetch ep ps attempt s = (Inl (AllCredentialsExhausted (length (apiKeys s))), s)"
  using assms by (subst fetchYouTubeAPI.simps) simp

lemma fetch_attempt:
  assumes "attempt < length (apiKeys s)" "currentKeyIndex s < length (apiKeys s)"
  shows "fetchYouTubeAPI fetch ep ps attempt s =
           (case attempt_once (length (apiKeys s)) attempt (Some (apiKeys s ! currentKeyIndex s))
                   (fetch (length (requests s)) (issued ep ps s)) of
              Retry \<Rightarrow> fetchYouTubeAPI fetch ep ps (attempt + 1) (advance (issued ep ps s) s)
            | Returned r \<Rightarrow> (r, advance (issued ep ps s) s)
            | Thrown e \<Rightarrow> (Inl e, advance (issued ep ps s) s))"
  using assms
  by (subst fetchYouTubeAPI.simps)
     (simp add: getNextApiKey_in_range issued_def advance_def key_param_def Let_def
        split: completion.split)

lemma advance_pool [simp]:
  "apiKeys (advance req s) = apiKeys s"
  "requests (advance req s) = requests s @ [req]"
  by (simp_all add: advance_def)

lemma advance_in_range:
  "0 < length (apiKeys s) \<Longrightarrow> currentKeyIndex (advance req s) < length (apiKeys (advance req s))"
  by (simp add: advance_def)

lemma attempt_once_quota:
  assumes "quotaFailure response" "1 < poolSize"
  shows "attempt_once poolSize attempt (Some k) response = Retry"
  using assms
  by (auto simp: attempt_once_def try_block_def quotaFailure_def split: response.splits sum.splits)

lemma quota_exhaustion_from:
  assumes "\<forall>n r. quotaFailure (fetch n r)" "2 \<le> length (apiKeys s)"
    "currentKeyIndex s < length (apiKeys s)" "attempt \<le> length (apiKeys s)"
    "k = length (apiKeys s) - attempt"
  shows "fst (fetchYouTubeAPI fetch ep ps attempt s) = Inl (AllCredentialsExhausted (length (apiKeys s)))
       \<and> length (requests (snd (fetchYouTubeAPI fetch ep ps attempt s))) = length (requests s) + k"
  using assms
proof (induction k arbitrary: attempt s)
  case 0
  then have "length (apiKeys s) \<le> attempt" "0 < length (apiKeys s)" by auto
  then show ?case by (simp add: fetch_exhausted)
next
  case (Suc k)
  let ?req = "issued ep ps s"
  let ?s2 = "advance ?req s"
  from Suc.prems have lt: "attempt < length (apiKeys s)" by simp
  have retry: "attempt_once (length (apiKeys s)) attempt (Some (apiKeys s ! currentKeyIndex s))
                 (fetch (length (requests s)) ?req) = Retry"
    using Suc.prems(1,2) by (intro attempt_once_quota) auto
  have unfold: "fetchYouTubeAPI fetch ep ps attempt s = fetchYouTubeAPI fetch ep ps (attempt + 1) ?s2"
    using fetch_attempt [OF lt Suc.prems(3), of fetch ep ps] by (simp add: retry)
  have "fst (fetchYouTubeAPI fetch ep ps (attempt + 1) ?s2)
          = Inl (AllCredentialsExhausted (length (apiKeys ?s2)))
        \<and> length (requests (snd (fetchYouTubeAPI fetch ep ps (attempt + 1) ?s2)))
          = length (requests ?s2) + k"
  proof (rule Suc.IH)
    show "\<forall>n r. quotaFailure (fetch n r)" by (rule Suc.prems(1))
    show "2 \<le> length (apiKeys ?s2)" using Suc.prems(2) by simp
    show "currentKeyIndex ?s2 < length (apiKeys ?s2)"
      using Suc.prems(2) by (intro advance_in_range) auto
    show "attempt + 1 \<le> length (apiKeys ?s2)" using lt by simp
    show "k = length (apiKeys ?s2) - (attempt + 1)" using Suc.prems(5) by simp
  qed
  then show ?case by (simp add: unfold)
qed

text \<open>
  Claim C1. With a pool of \<open>N \<ge> 2\<close> credentials (cursor in range, as it always is after
  \<open>setApiKeys\<close>), if every underlying request reports a quota-class reason, one logical
  call fails with \<open>AllCredentialsExhausted N\<close> and has issued exactly \<open>N\<close> requests.
\<close>

theorem quota_exhaustion:
  assumes "2 \<le> length (apiKeys s)" "currentKeyIndex s < length (apiKeys s)"
    and "\<forall>n r. quotaFailure (fetch n r)"
  shows "fst (fetchYouTubeAPI fetch ep ps 0 s) = Inl (AllCredentialsExhausted (length (apiKeys s)))
       \<and> length (requests (snd (fetchYouTubeAPI fetch ep ps 0 s))) = length (requests s) + length (apiKeys s)"
  using quota_exhaustion_from [OF assms(3) assms(1) assms(2), of 0 "length (apiKeys s)" ep ps]
  by simp

theorem quota_exhaustion_witness:
  "2 \<le> length (apiKeys (setApiKeys [''k1'', ''k2''] fresh))
   \<and> currentKeyIndex (setApiKeys [''k1'', ''k2''] fresh) < length (apiKeys (setApiKeys [''k1'', ''k2''] fresh))
   \<and> (\<forall>n r. quotaFailure (always_quota n r))
   \<and> fst (fetchYouTubeAPI always_quota ''search'' [] 0 (setApiKeys [''k1'', ''k2''] fresh))
       = Inl (AllCredentialsExhausted 2)
   \<and> length (requests (snd (fetchYouTubeAPI always_quota ''search'' [] 0 (setApiKeys [''k1'', ''k2''] fresh)))) = 2"
proof -
  let ?s = "setApiKeys [''k1'', ''k2''] fresh"
  have a: "2 \<le> length (apiKeys ?s)" by (simp add: setApiKeys_def)
  have b: "currentKeyIndex ?s < length (apiKeys ?s)" by (simp add: setApiKeys_def)
  have c: "\<forall>n r. quotaFailure (always_quota n r)"
    by (simp add: quotaFailure_def always_quota_def isQuotaReason_def)
  have d: "length (apiKeys ?s) = 2" "length (requests ?s) = 0"
    by (simp_all add: setApiKeys_def fresh_def)
  show ?thesis
    using a b c quota_exhaustion [OF a b c, of "''search''" "[]"] by (simp add: d)
qed

text \<open>
  Claim C2, as stated, fails: with two credentials, a first response with the non-quota
  reason \<open>forbidden\<close> does not end the call. The error thrown inside the \<open>try\<close> block is
  caught by the \<open>catch\<close> block of the same attempt, which retries with the next
  credential; here the second request succeeds and the call returns its body.
\<close>

theorem non_quota_failure_is_retried:
  "\<not> isQuotaReason (Some ''forbidden'')
   \<and> forbidden_then_ok 0 \<lparr>endpoint = ''channels'', query = [(''key'', ''k1'')]\<rparr>
       = NotOk (Inr \<lparr>reason = Some ''forbidden'', message = Some ''Forbidden''\<rparr>)
   \<and> fetchYouTubeAPI forbidden_then_ok ''channels'' [] 0 (setApiKeys [''k1'', ''k2''] fresh)
       = (Inr (),
          \<lparr>apiKeys = [''k1'', ''k2''], currentKeyIndex = 0,
            requests = [\<lparr>endpoint = ''channels'', query = [(''key'', ''k1'')]\<rparr>,
                        \<lparr>endpoint = ''channels'', query = [(''key'', ''k2'')]\<rparr>]\<rparr>)"
  by code_simp

text \<open>
  Claim C2, amended. A non-success response with a non-quota reason ends the call at once
  with \<open>UpstreamRequestFailed\<close>, carrying the upstream message (the default text when the
  payload has none), when no further attempt is left: the attempt is the pool's last one,
  which for a pool of one credential is the first. No further request is issued: the
  final state is that of the failed attempt.
\<close>

theorem non_quota_failure_without_spare_attempt:
  assumes "currentKeyIndex s < length (apiKeys s)"
    and "attempt + 1 = length (apiKeys s)"
    and "fetch (length (requests s)) (issued ep ps s) = NotOk (Inr errorData)"
    and "\<not> isQuotaReason (reason errorData)"
  shows "fetchYouTubeAPI fetch ep ps attempt s =
           (Inl (UpstreamRequestFailed (upstream_message errorData)), advance (issued ep ps s) s)"
proof -
  have lt: "attempt < length (apiKeys s)" using assms(2) by simp
  have "attempt_once (length (apiKeys s)) attempt (Some (apiKeys s ! currentKeyIndex s))
          (fetch (length (requests s)) (issued ep ps s))
        = Returned (Inl (UpstreamRequestFailed (upstream_message errorData)))"
    using assms(2,4) by (auto simp: assms(3) attempt_once_def try_block_def catch_block_def)
  then show ?thesis
    using fetch_attempt [OF lt assms(1), of fetch ep ps] by simp
qed

theorem non_quota_failure_without_spare_attempt_witness:
  "fetchYouTubeAPI always_forbidden ''channels'' [] 0 (setApiKeys [''k1''] fresh) =
     (Inl (UpstreamRequestFailed ''Forbidden''),
      \<lparr>apiKeys = [''k1''], currentKeyIndex = 0,
        requests = [\<lparr>endpoint = ''channels'', query = [(''key'', ''k1'')]\<rparr>]\<rparr>)"
  using non_quota_failure_without_spare_attempt
          [of "setApiKeys [''k1''] fresh" 0 always_forbidden "''channels''" "[]"
              "\<lparr>reason = Some ''forbidden'', message = Some ''Forbidden''\<rparr>"]
  by (simp add: setApiKeys_def fresh_def always_forbidden_def isQuotaReason_def issued_def
        advance_def upstream_message_def truthy_def)

section \<open>The channel resolver and the paginated videos\<close>

lemma resolve_fast_path:
  "prefix ''UC'' channelIdentifier \<Longrightarrow> resolveChannelId w channelIdentifier s = (Inr channelIdentifier, s)"
  by (simp add: resolveChannelId_def startsWith_def)

text \<open>
  Claim C4. An identifier of the canonical shape is returned unchanged, and the state,
  with its log of requests, is unchanged too: no network call is made, whatever the
  upstream would have answered.
\<close>

theorem canonical_id_fast_path:
  assumes "canonical_shape channelIdentifier"
  shows "resolveChannelId w channelIdentifier s = (Inr channelIdentifier, s)"
  using assms by (simp add: canonical_shape_def resolve_fast_path)

theorem canonical_id_fast_path_witness:
  "canonical_shape ''UCxxxxxxxxxxxxxxxxxxxxxx''
   \<and> resolveChannelId offline ''UCxxxxxxxxxxxxxxxxxxxxxx'' one_key = (Inr ''UCxxxxxxxxxxxxxxxxxxxxxx'', one_key)"
proof -
  have c: "canonical_shape ''UCxxxxxxxxxxxxxxxxxxxxxx''" by (simp add: canonical_shape_def)
  show ?thesis using c canonical_id_fast_path [OF c, of offline one_key] by simp
qed

text \<open>
  Claim C10. The fast path tests the prefix only: every identifier that starts with
  \<open>UC\<close>, of any length, is returned unchanged without a network call.
\<close>

theorem uc_prefix_fast_path:
  assumes "startsWith channelIdentifier ''UC''"
  shows "resolveChannelId w channelIdentifier s = (Inr channelIdentifier, s)"
  using assms by (simp add: startsWith_def resolve_fast_path)

theorem uc_prefix_fast_path_witness:
  "startsWith ''UCabcd'' ''UC'' \<and> length ''UCabcd'' = 6
   \<and> resolveChannelId offline ''UCabcd'' one_key = (Inr ''UCabcd'', one_key)"
proof -
  have c: "startsWith ''UCabcd'' ''UC''" by (simp add: startsWith_def)
  show ?thesis using c uc_prefix_fast_path [OF c, of offline one_key] by simp
qed

lemma resolve_fallback:
  assumes "\<not> startsWith channelIdentifier ''UC''"
    and "fetchYouTubeAPI (channelsEndpoint w) ''channels'' (usernameParams channelIdentifier) 0 s = (lookup, s1)"
    and "noMatch lookup"
  shows "resolveChannelId w channelIdentifier s = searchChannel w channelIdentifier s1"
  using assms
  by (auto simp: resolveChannelId_def noMatch_def split: sum.splits option.splits list.splits)

text \<open>
  Claim C5, as stated for every non-canonical identifier, fails: \<open>UCabcd\<close> is not of
  the canonical shape, yet the resolver takes the fast path. Where the username lookup
  would fail and the search would find nothing, it returns the identifier, with no
  request made, instead of failing with \<open>ChannelNotFound\<close>.
\<close>

theorem uc_prefixed_identifier_skips_fallback:
  "\<not> canonical_shape ''UCabcd''
   \<and> fst (fetchYouTubeAPI (channelsEndpoint handle_unknown) ''channels'' (usernameParams ''UCabcd'') 0 one_key)
       = Inl (UpstreamRequestFailed ''Bad Request'')
   \<and> fst (fetchYouTubeAPI (searchEndpoint handle_unknown) ''search'' (channelSearchParams ''UCabcd'') 0
            (snd (fetchYouTubeAPI (channelsEndpoint handle_unknown) ''channels''
                    (usernameParams ''UCabcd'') 0 one_key)))
       = Inr no_items
   \<and> resolveChannelId handle_unknown ''UCabcd'' one_key = (Inr ''UCabcd'', one_key)"
proof -
  have "\<not> canonical_shape ''UCabcd''" by (simp add: canonical_shape_def)
  moreover have "fst (fetchYouTubeAPI (channelsEndpoint handle_unknown) ''channels'' (usernameParams ''UCabcd'') 0 one_key)
       = Inl (UpstreamRequestFailed ''Bad Request'')"
    by code_simp
  moreover have "fst (fetchYouTubeAPI (searchEndpoint handle_unknown) ''search'' (channelSearchParams ''UCabcd'') 0
            (snd (fetchYouTubeAPI (channelsEndpoint handle_unknown) ''channels''
                    (usernameParams ''UCabcd'') 0 one_key)))
       = Inr no_items"
    by code_simp
  moreover have "resolveChannelId handle_unknown ''UCabcd'' one_key = (Inr ''UCabcd'', one_key)"
    by (simp add: resolveChannelId_def startsWith_def)
  ultimately show ?thesis by blast
qed

text \<open>
  Claim C5, amended. For an identifier that does not start with \<open>UC\<close>, when the username
  lookup fails (the error is dropped) or yields no items, the resolver runs the free-text
  search from the state the lookup left. If the search answers, the result is the channel
  identifier of its first item; with no items, or a first item without a channel
  identifier, the resolver fails with \<open>ChannelNotFound\<close>.
\<close>

theorem resolver_falls_back_to_search:
  assumes "\<not> startsWith channelIdentifier ''UC''"
    and "fetchYouTubeAPI (channelsEndpoint w) ''channels'' (usernameParams channelIdentifier) 0 s = (lookup, s1)"
    and "noMatch lookup"
    and "fetchYouTubeAPI (searchEndpoint w) ''search'' (channelSearchParams channelIdentifier) 0 s1
           = (Inr searchData, s2)"
  shows "(items searchData = Some (first # rest) \<and> snippet_channelId first = Some c \<and> c \<noteq> []
            \<longrightarrow> resolveChannelId w channelIdentifier s = (Inr c, s2))
       \<and> (items searchData = None \<or> items searchData = Some []
            \<or> (items searchData = Some (first # rest) \<and> \<not> truthy (snippet_channelId first))
            \<longrightarrow> resolveChannelId w channelIdentifier s = (Inl ChannelNotFound, s2))"
  unfolding resolve_fallback [OF assms(1,2,3)]
  by (auto simp: searchChannel_def assms(4) truthy_def)

theorem resolver_falls_back_to_search_witness:
  "resolveChannelId handle_found ''SomeHandle'' one_key =
     (Inr ''UC123'',
      \<lparr>apiKeys = [''k1''], currentKeyIndex = 0,
        requests = [issued ''channels'' (usernameParams ''SomeHandle'') one_key,
                    issued ''search'' (channelSearchParams ''SomeHandle'') one_key]\<rparr>)
   \<and> resolveChannelId handle_unknown ''SomeHandle'' one_key =
     (Inl ChannelNotFound,
      \<lparr>apiKeys = [''k1''], currentKeyIndex = 0,
        requests = [issued ''channels'' (usernameParams ''SomeHandle'') one_key,
                    issued ''search'' (channelSearchParams ''SomeHandle'') one_key]\<rparr>)"
proof -
  let ?s1 = "\<lparr>apiKeys = [''k1''], currentKeyIndex = 0,
               requests = [issued ''channels'' (usernameParams ''SomeHandle'') one_key]\<rparr>"
  let ?s2 = "\<lparr>apiKeys = [''k1''], currentKeyIndex = 0,
               requests = [issued ''channels'' (usernameParams ''SomeHandle'') one_key,
                           issued ''search'' (channelSearchParams ''SomeHandle'') one_key]\<rparr>"
  let ?hit = "\<lparr>id_videoId = None, snippet_channelId = Some ''UC123''\<rparr>"
  have not_uc: "\<not> startsWith ''SomeHandle'' ''UC''"
    by (simp add: startsWith_def)
  have lookup1: "fetchYouTubeAPI (channelsEndpoint handle_found) ''channels''
                   (usernameParams ''SomeHandle'') 0 one_key = (Inr no_items, ?s1)"
    by code_simp
  have search1: "fetchYouTubeAPI (searchEndpoint handle_found) ''search''
                   (channelSearchParams ''SomeHandle'') 0 ?s1
                 = (Inr \<lparr>items = Some [?hit], nextPageToken = None\<rparr>, ?s2)"
    by code_simp
  have lookup2: "fetchYouTubeAPI (channelsEndpoint handle_unknown) ''channels''
                   (usernameParams ''SomeHandle'') 0 one_key
                 = (Inl (UpstreamRequestFailed ''Bad Request''), ?s1)"
    by code_simp
  have search2: "fetchYouTubeAPI (searchEndpoint handle_unknown) ''search''
                   (channelSearchParams ''SomeHandle'') 0 ?s1 = (Inr no_items, ?s2)"
    by code_simp
  have no1: "noMatch (Inr no_items)" by (simp add: noMatch_def no_items_def)
  have no2: "noMatch (Inl (UpstreamRequestFailed ''Bad Request''))" by (simp add: noMatch_def)
  show ?thesis
    using resolver_falls_back_to_search [OF not_uc lookup1 no1 search1, of ?hit "[]" "''UC123''"]
          resolver_falls_back_to_search [OF not_uc lookup2 no2 search2]
    by (simp add: no_items_def)
qed

text \<open>
  Claim C6. When the search step answers with an empty list of items, the operation
  returns the empty page with no next-page token, and the state is the one the search
  left: no request to the \<open>videos\<close> endpoint follows.
\<close>

theorem empty_search_skips_hydration:
  assumes "fetchYouTubeAPI (searchEndpoint w) ''search'' (searchParams channelId maxResults pageToken) 0 s
             = (Inr searchData, s1)"
    and "items searchData = Some []"
  shows "getChannelVideos w channelId maxResults pageToken s
           = (Inr \<lparr>videos = [], pageNextPageToken = None\<rparr>, s1)"
  using assms by (simp add: getChannelVideos_def)

theorem empty_search_skips_hydration_witness:
  "getChannelVideos no_videos ''UCabc'' 10 None one_key
     = (Inr \<lparr>videos = [], pageNextPageToken = None\<rparr>,
        \<lparr>apiKeys = [''k1''], currentKeyIndex = 0,
          requests = [issued ''search'' (searchParams ''UCabc'' 10 None) one_key]\<rparr>)
   \<and> endpoint (issued ''search'' (searchParams ''UCabc'' 10 None) one_key) = ''search''"
proof -
  have search: "fetchYouTubeAPI (searchEndpoint no_videos) ''search'' (searchParams ''UCabc'' 10 None) 0 one_key
      = (Inr no_items,
         \<lparr>apiKeys = [''k1''], currentKeyIndex = 0,
           requests = [issued ''search'' (searchParams ''UCabc'' 10 None) one_key]\<rparr>)"
    by code_simp
  have empty: "items (no_items :: search_item listing) = Some []" by (simp add: no_items_def)
  show ?thesis
    using empty_search_skips_hydration [OF search empty] by (simp add: issued_def)
qed

section \<open>The oldest video\<close>










lemma playlistVideo_fields:
  "playlistVideo item =
     \<lparr>id' = resourceId_videoId item,
      publishedAt = snippet_publishedAt (playlist_snippet item),
      title = snippet_title (playlist_snippet item),
      description = snippet_description (playlist_snippet item),
      thumbnailUrl =
        (if truthy (high_url (snippet_thumbnails (playlist_snippet item)))
         then the (high_url (snippet_thumbnails (playlist_snippet item)))
         else default_url (snippet_thumbnails (playlist_snippet item))),
      viewCount = Some ''0'', likeCount = Some ''0'', commentCount = Some ''0''\<rparr>"
  by (simp add: playlistVideo_def Let_def)


lemma scan_page:
  assumes "fetchYouTubeAPI (playlistItemsEndpoint w) ''playlistItems'' (pageParams playlistId pageToken) 0 s
             = (Inr page, s1)"
    and "items page = Some xs"
  shows "scanUploads w playlistId a b pageToken s =
           (case find (itemInRange w a b) xs of
              Some item \<Rightarrow> Some (Inr (Some (playlistVideo item)), s1)
            | None \<Rightarrow>
                if truthy (nextPageToken page)
                then scanUploads w playlistId a b (nextPageToken page) s1
                else Some (Inr None, s1))"
  using assms by (subst scanUploads.simps) simp

lemma find_append_none:
  "find P xs = None \<Longrightarrow> find P (xs @ ys) = find P ys"
  by (induction xs) (auto split: if_splits)

lemma find_append_some:
  "find P xs = Some x \<Longrightarrow> find P (xs @ ys) = Some x"
  by (induction xs) (auto split: if_splits)

lemma scan_serves:
  assumes "serves w playlistId pageToken s pages s'"
    and "\<forall>page\<in>set pages. items page \<noteq> None"
    and "find (itemInRange w a b) (collection (butlast pages)) = None"
  shows "scanUploads w playlistId a b pageToken s =
           (case find (itemInRange w a b) (collection pages) of
              Some item \<Rightarrow> Some (Inr (Some (playlistVideo item)), s')
            | None \<Rightarrow>
                if truthy (nextPageToken (last pages))
                then scanUploads w playlistId a b (nextPageToken (last pages)) s'
                else Some (Inr None, s'))"
  using assms
proof (induction w playlistId pageToken s pages s' rule: serves.induct)
  case (1 w playlistId pageToken s s')
  then show ?case by simp
next
  case (2 w playlistId pageToken s page s')
  then obtain xs where xs: "items page = Some xs" by auto
  have f: "fetchYouTubeAPI (playlistItemsEndpoint w) ''playlistItems'' (pageParams playlistId pageToken) 0 s
             = (Inr page, s')"
    using "2.prems"(1) by simp
  show ?case
    by (simp add: scan_page [OF f xs] collection_def xs split: option.split)
next
  case (3 w playlistId pageToken s page page2 later s')
  then obtain xs where xs: "items page = Some xs" by auto
  obtain s1 where f: "fetchYouTubeAPI (playlistItemsEndpoint w) ''playlistItems''
                        (pageParams playlistId pageToken) 0 s = (Inr page, s1)"
      and tok: "truthy (nextPageToken page)"
      and rest: "serves w playlistId (nextPageToken page) s1 (page2 # later) s'"
    using "3.prems"(1) by (auto split: prod.splits sum.splits)
  have split: "collection (butlast (page # page2 # later)) = xs @ collection (butlast (page2 # later))"
    by (simp add: collection_def xs)
  have none_here: "find (itemInRange w a b) xs = None"
    using "3.prems"(3) unfolding split by (cases "find (itemInRange w a b) xs") (auto simp: find_append_some)
  have none_rest: "find (itemInRange w a b) (collection (butlast (page2 # later))) = None"
    using "3.prems"(3) none_here unfolding split by (simp add: find_append_none)
  have all_rest: "\<forall>page\<in>set (page2 # later). items page \<noteq> None"
    using "3.prems"(2) by simp
  have ih: "scanUploads w playlistId a b (nextPageToken page) s1 =
           (case find (itemInRange w a b) (collection (page2 # later)) of
              Some item \<Rightarrow> Some (Inr (Some (playlistVideo item)), s')
            | None \<Rightarrow>
                if truthy (nextPageToken (last (page2 # later)))
                then scanUploads w playlistId a b (nextPageToken (last (page2 # later))) s'
                else Some (Inr None, s'))"
    using "3.IH" [OF f [symmetric] refl rest all_rest none_rest] .
  have whole: "find (itemInRange w a b) (collection (page # page2 # later))
                 = find (itemInRange w a b) (collection (page2 # later))"
    using none_here by (simp add: collection_def xs find_append_none)
  show ?case
    using tok by (simp add: scan_page [OF f xs] none_here ih whole split: option.split)
qed

lemma find_append_none_left:
  "find P (xs @ ys) = None \<Longrightarrow> find P xs = None"
  by (induction xs) (auto split: if_splits)

lemma serves_nonempty: "serves w playlistId pageToken s pages s' \<Longrightarrow> pages \<noteq> []"
  by (cases pages) auto

lemma collection_butlast:
  "pages \<noteq> [] \<Longrightarrow> collection pages = collection (butlast pages) @ collection [last pages]"
  unfolding collection_def
  by (subst append_butlast_last_id [symmetric, of pages]) (simp_all del: append_butlast_last_id)

text \<open>
  Claim C7. Without a complete range (a bound absent or empty) the operation is
  \<open>getOldestVideo\<close>. An item is in range when its publish instant \<open>t\<close> satisfies
  \<open>start \<le> t \<le> end\<close>. With a range, when the upstream serves the pages \<open>pages\<close>: if the
  first in-range item of the collection, in collection order, lies in the last of these
  pages, the video of that item is returned (whatever the instants of the items after
  it): its identifier, publish date, title, description and thumbnail are those of the
  item, its counts \<open>"0"\<close>. If no item is in range and the last page announces no further
  page, the result is \<open>null\<close>. In both cases the call returns.
\<close>

theorem oldest_in_range_first_match:
  "(\<not> truthy startDate \<or> \<not> truthy endDate
      \<longrightarrow> getOldestVideoInRange w playlistId startDate endDate s = Some (getOldestVideo w playlistId s))
   \<and> (itemInRange w (Some a) (Some b) x
        \<longleftrightarrow> (\<exists>t. publishedAtTime w x = Some t \<and> a \<le> t \<and> t \<le> b))
   \<and> (truthy startDate \<and> truthy endDate
       \<and> serves w playlistId None s pages s' \<and> (\<forall>page\<in>set pages. items page \<noteq> None)
       \<and> find (itemInRange w (getTime w (the startDate)) (getTime w (the endDate)))
             (collection (butlast pages)) = None
       \<and> find (itemInRange w (getTime w (the startDate)) (getTime w (the endDate)))
             (collection pages) = Some item
      \<longrightarrow> getOldestVideoInRange w playlistId startDate endDate s
            = Some (Inr (Some
                 \<lparr>id' = resourceId_videoId item,
                  publishedAt = snippet_publishedAt (playlist_snippet item),
                  title = snippet_title (playlist_snippet item),
                  description = snippet_description (playlist_snippet item),
                  thumbnailUrl =
                    (if truthy (high_url (snippet_thumbnails (playlist_snippet item)))
                     then the (high_url (snippet_thumbnails (playlist_snippet item)))
                     else default_url (snippet_thumbnails (playlist_snippet item))),
                  viewCount = Some ''0'', likeCount = Some ''0'', commentCount = Some ''0''\<rparr>),
               s'))
   \<and> (truthy startDate \<and> truthy endDate
       \<and> serves w playlistId None s pages s' \<and> (\<forall>page\<in>set pages. items page \<noteq> None)
       \<and> find (itemInRange w (getTime w (the startDate)) (getTime w (the endDate)))
             (collection pages) = None
       \<and> \<not> truthy (nextPageToken (last pages))
      \<longrightarrow> getOldestVideoInRange w playlistId startDate endDate s = Some (Inr None, s'))"
proof (intro conjI impI)
  assume "\<not> truthy startDate \<or> \<not> truthy endDate"
  then show "getOldestVideoInRange w playlistId startDate endDate s = Some (getOldestVideo w playlistId s)"
    by (auto simp: getOldestVideoInRange_def)
next
  show "itemInRange w (Some a) (Some b) x
        \<longleftrightarrow> (\<exists>t. publishedAtTime w x = Some t \<and> a \<le> t \<and> t \<le> b)"
    by (auto simp: itemInRange_def inRange_def publishedAtTime_def split: option.splits)
next
  let ?P = "itemInRange w (getTime w (the startDate)) (getTime w (the endDate))"
  assume h: "truthy startDate \<and> truthy endDate
       \<and> serves w playlistId None s pages s' \<and> (\<forall>page\<in>set pages. items page \<noteq> None)
       \<and> find ?P (collection (butlast pages)) = None
       \<and> find ?P (collection pages) = Some item"
  then have sv: "serves w playlistId None s pages s'" and al: "\<forall>page\<in>set pages. items page \<noteq> None"
    and bl: "find ?P (collection (butlast pages)) = None" by simp_all
  show "getOldestVideoInRange w playlistId startDate endDate s
            = Some (Inr (Some
                 \<lparr>id' = resourceId_videoId item,
                  publishedAt = snippet_publishedAt (playlist_snippet item),
                  title = snippet_title (playlist_snippet item),
                  description = snippet_description (playlist_snippet item),
                  thumbnailUrl =
                    (if truthy (high_url (snippet_thumbnails (playlist_snippet item)))
                     then the (high_url (snippet_thumbnails (playlist_snippet item)))
                     else default_url (snippet_thumbnails (playlist_snippet item))),
                  viewCount = Some ''0'', likeCount = Some ''0'', commentCount = Some ''0''\<rparr>),
               s')"
    using h by (simp add: getOldestVideoInRange_def scan_serves [OF sv al bl] playlistVideo_fields)
next
  let ?P = "itemInRange w (getTime w (the startDate)) (getTime w (the endDate))"
  assume h: "truthy startDate \<and> truthy endDate
       \<and> serves w playlistId None s pages s' \<and> (\<forall>page\<in>set pages. items page \<noteq> None)
       \<and> find ?P (collection pages) = None
       \<and> \<not> truthy (nextPageToken (last pages))"
  then have sv: "serves w playlistId None s pages s'" and al: "\<forall>page\<in>set pages. items page \<noteq> None"
    and none: "find ?P (collection pages) = None" by simp_all
  have "find ?P (collection (butlast pages) @ collection [last pages]) = None"
    using none collection_butlast [OF serves_nonempty [OF sv]] by simp
  then have bl: "find ?P (collection (butlast pages)) = None"
    by (rule find_append_none_left)
  show "getOldestVideoInRange w playlistId startDate endDate s = Some (Inr None, s')"
    using h by (simp add: getOldestVideoInRange_def scan_serves [OF sv al bl])
qed

theorem oldest_in_range_first_match_witness:
  "getOldestVideoInRange two_pages ''UU1'' (Some ''2020-01-01T00:00:00Z'') (Some ''2020-12-31T00:00:00Z'') one_key
     = Some (Inr (Some
          \<lparr>id' = ''v3'', publishedAt = ''2020-03-10T00:00:00Z'', title = ''v3'',
           description = [], thumbnailUrl = ''default.jpg'',
           viewCount = Some ''0'', likeCount = Some ''0'', commentCount = Some ''0''\<rparr>),
        after_second_page)
   \<and> collection [page1, page2] ! 2 = upload ''v3'' ''2020-03-10T00:00:00Z''
   \<and> collection [page1, page2] ! 3 = upload ''v4'' ''2020-02-15T00:00:00Z''
   \<and> the (publishedAtTime two_pages (upload ''v4'' ''2020-02-15T00:00:00Z''))
       < the (publishedAtTime two_pages (upload ''v3'' ''2020-03-10T00:00:00Z''))
   \<and> getOldestVideoInRange two_pages ''UU1'' (Some ''2022-01-01T00:00:00Z'') (Some ''2022-12-31T00:00:00Z'') one_key
     = Some (Inr None, after_second_page)
   \<and> getOldestVideoInRange two_pages ''UU1'' None (Some ''2020-12-31T00:00:00Z'') one_key
     = Some (getOldestVideo two_pages ''UU1'' one_key)"
proof -
  let ?in2020 = "itemInRange two_pages (getTime two_pages (the (Some ''2020-01-01T00:00:00Z'')))
                   (getTime two_pages (the (Some ''2020-12-31T00:00:00Z'')))"
  let ?in2022 = "itemInRange two_pages (getTime two_pages (the (Some ''2022-01-01T00:00:00Z'')))
                   (getTime two_pages (the (Some ''2022-12-31T00:00:00Z'')))"
  have t1: "truthy (Some ''2020-01-01T00:00:00Z'')" "truthy (Some ''2020-12-31T00:00:00Z'')"
    "truthy (Some ''2022-01-01T00:00:00Z'')" "truthy (Some ''2022-12-31T00:00:00Z'')"
    "\<not> truthy None"
    by (simp_all add: truthy_def)
  have sv: "serves two_pages ''UU1'' None one_key [page1, page2] after_second_page"
    by code_simp
  have al: "\<forall>page\<in>set [page1, page2]. items page \<noteq> None"
    by (simp add: page1_def page2_def)
  have before: "find ?in2020 (collection (butlast [page1, page2])) = None"
    by code_simp
  have hit: "find ?in2020 (collection [page1, page2]) = Some (upload ''v3'' ''2020-03-10T00:00:00Z'')"
    by code_simp
  have miss: "find ?in2022 (collection [page1, page2]) = None"
    by code_simp
  have exhausted: "\<not> truthy (nextPageToken (last [page1, page2]))"
    by (simp add: page2_def truthy_def)
  have order: "collection [page1, page2] ! 2 = upload ''v3'' ''2020-03-10T00:00:00Z''"
      "collection [page1, page2] ! 3 = upload ''v4'' ''2020-02-15T00:00:00Z''"
    by (simp_all add: collection_def page1_def page2_def)
  have earlier: "the (publishedAtTime two_pages (upload ''v4'' ''2020-02-15T00:00:00Z''))
       < the (publishedAtTime two_pages (upload ''v3'' ''2020-03-10T00:00:00Z''))"
    by code_simp
  let ?v3 = "upload ''v3'' ''2020-03-10T00:00:00Z''"
  have "getOldestVideoInRange two_pages ''UU1'' (Some ''2020-01-01T00:00:00Z'') (Some ''2020-12-31T00:00:00Z'') one_key
     = Some (Inr (Some
          \<lparr>id' = resourceId_videoId ?v3,
           publishedAt = snippet_publishedAt (playlist_snippet ?v3),
           title = snippet_title (playlist_snippet ?v3),
           description = snippet_description (playlist_snippet ?v3),
           thumbnailUrl =
             (if truthy (high_url (snippet_thumbnails (playlist_snippet ?v3)))
              then the (high_url (snippet_thumbnails (playlist_snippet ?v3)))
              else default_url (snippet_thumbnails (playlist_snippet ?v3))),
           viewCount = Some ''0'', likeCount = Some ''0'', commentCount = Some ''0''\<rparr>),
        after_second_page)"
    using oldest_in_range_first_match
      [of "Some ''2020-01-01T00:00:00Z''" "Some ''2020-12-31T00:00:00Z''" two_pages "''UU1''" one_key
          _ _ _ "[page1, page2]" after_second_page ?v3]
      t1 sv al before hit
    by blast
  then have a: "getOldestVideoInRange two_pages ''UU1'' (Some ''2020-01-01T00:00:00Z'') (Some ''2020-12-31T00:00:00Z'') one_key
     = Some (Inr (Some
          \<lparr>id' = ''v3'', publishedAt = ''2020-03-10T00:00:00Z'', title = ''v3'',
           description = [], thumbnailUrl = ''default.jpg'',
           viewCount = Some ''0'', likeCount = Some ''0'', commentCount = Some ''0''\<rparr>),
        after_second_page)"
    by (simp add: upload_def truthy_def)
  have b: "getOldestVideoInRange two_pages ''UU1'' (Some ''2022-01-01T00:00:00Z'') (Some ''2022-12-31T00:00:00Z'') one_key
     = Some (Inr None, after_second_page)"
    using oldest_in_range_first_match
      [of "Some ''2022-01-01T00:00:00Z''" "Some ''2022-12-31T00:00:00Z''" two_pages "''UU1''" one_key
          _ _ _ "[page1, page2]" after_second_page]
      t1 sv al miss exhausted
    by blast
  have c: "getOldestVideoInRange two_pages ''UU1'' None (Some ''2020-12-31T00:00:00Z'') one_key
     = Some (getOldestVideo two_pages ''UU1'' one_key)"
    using oldest_in_range_first_match [of None "Some ''2020-12-31T00:00:00Z'' " two_pages "''UU1''" one_key]
      t1
    by blast
  show ?thesis using a b c order earlier by blast
qed


section \<open>Number formatting\<close>

text \<open>
  The double quotient is within half a unit in the last place of the exact quotient, and
  \<open>toFixed(1)\<close> picks a nearest tenth of the double. The scaled values are multiples of a
  hundred-thousandth at most, coarser than the rounding error of the division, so the
  tenth chosen is a nearest tenth of the exact quotient as well.
\<close>

lemma round_half_even_error:
  assumes "0 < b"
  shows "2 * \<bar>int a - int (round_half_even a b) * int b\<bar> \<le> int b"
proof -
  define q r where "q = a div b" and "r = a mod b"
  have a: "int a = int q * int b + int r"
    unfolding q_def r_def by (metis div_mult_mod_eq of_nat_add of_nat_mult)
  have r: "int r < int b" unfolding r_def using assms by simp
  have step: "int ((q + 1)) * int b = int q * int b + int b"
    by (simp add: algebra_simps)
  show ?thesis
    unfolding round_half_even_def Let_def q_def [symmetric] r_def [symmetric]
    using a r step by (auto simp: algebra_simps)
qed

lemma ilog2_bound: "m < 2 ^ Suc k \<Longrightarrow> ilog2 m \<le> k"
proof (induction k arbitrary: m)
  case 0
  then show ?case by (subst ilog2.simps) simp
next
  case (Suc k)
  show ?case
  proof (cases "m < 2")
    case True
    then show ?thesis by (subst ilog2.simps) simp
  next
    case False
    have "m div 2 < 2 ^ Suc k" using Suc.prems by simp
    then have "ilog2 (m div 2) \<le> k" by (rule Suc.IH)
    then show ?thesis using False by (subst ilog2.simps) simp
  qed
qed

lemma tenths_floor:
  fixes m sh :: nat
  defines "t \<equiv> (20 * m + 2 ^ sh) div 2 ^ (sh + 1)"
  shows "2 * (2 ^ sh * int t) \<le> 20 * int m + 2 ^ sh"
    and "20 * int m + 2 ^ sh < 2 * (2 ^ sh * int t) + 2 * 2 ^ sh"
proof -
  let ?n = "20 * m + 2 ^ sh" and ?d = "(2::nat) ^ (sh + 1)"
  have pos: "0 < ?d" by simp
  have "t * ?d \<le> ?n" unfolding t_def by (rule div_times_less_eq_dividend)
  then have "int (t * ?d) \<le> int ?n" by (rule iffD2 [OF of_nat_le_iff])
  then show "2 * (2 ^ sh * int t) \<le> 20 * int m + 2 ^ sh"
    by (simp add: algebra_simps)
  have "?n < ?d + t * ?d" unfolding t_def using pos by (rule dividend_less_div_times)
  then have "int ?n < int (?d + t * ?d)" by (rule iffD2 [OF of_nat_less_iff])
  then show "20 * int m + 2 ^ sh < 2 * (2 ^ sh * int t) + 2 * 2 ^ sh"
    by (simp add: algebra_simps)
qed

lemma scaled_tenths:
  fixes p q sh :: nat
  assumes "0 < q" "20 dvd q" "q < 2 ^ (sh + 1)"
  defines "m \<equiv> round_half_even (p * 2 ^ sh) q"
  defines "t \<equiv> (20 * m + 2 ^ sh) div 2 ^ (sh + 1)"
  shows "2 * \<bar>10 * int p - int t * int q\<bar> \<le> int q"
proof -
  define S :: int where "S = 2 ^ sh"
  define P :: int where "P = int p"
  define Q :: int where "Q = int q"
  define M :: int where "M = int m"
  define T :: int where "T = int t"
  define X :: int where "X = 20 * M - 2 * (S * T)"
  define R :: int where "R = P * S - M * Q"
  define D :: int where "D = 20 * P - 2 * T * Q"
  have Spos: "0 < S" by (simp add: S_def)
  have Qpos: "0 < Q" using assms(1) by (simp add: Q_def)
  have "int q < int (2 ^ (sh + 1))" using assms(3) by (rule iffD2 [OF of_nat_less_iff])
  then have QS: "Q < 2 * S" by (simp add: Q_def S_def)
  have "2 * \<bar>int (p * 2 ^ sh) - int (round_half_even (p * 2 ^ sh) q) * int q\<bar> \<le> int q"
    using assms(1) by (rule round_half_even_error)
  then have R: "2 * \<bar>R\<bar> \<le> Q"
    by (simp add: R_def P_def S_def M_def Q_def m_def)
  have X1: "- S \<le> X" and X2: "X < S"
    using tenths_floor [where m = m and sh = sh] by (simp_all add: X_def S_def M_def T_def t_def)
  have QX1: "Q * (- S) \<le> Q * X" using X1 Qpos by (intro mult_left_mono) simp_all
  have QX2: "Q * X < Q * S" using X2 Qpos by (intro mult_strict_left_mono) simp_all
  have SD: "S * D = 20 * R + Q * X"
    by (simp add: D_def R_def X_def algebra_simps)
  have up: "S * D < S * (Q + 20)"
  proof -
    have "S * D < 10 * Q + Q * S" using SD R QX2 by linarith
    also have "\<dots> < 20 * S + Q * S" using QS by linarith
    also have "\<dots> = S * (Q + 20)" by (simp add: algebra_simps)
    finally show ?thesis .
  qed
  have low: "S * (- (Q + 20)) < S * D"
  proof -
    have "S * (- (Q + 20)) = - (20 * S) + Q * (- S)" by (simp add: algebra_simps)
    also have "\<dots> < - (10 * Q) + Q * (- S)" using QS by linarith
    also have "\<dots> \<le> S * D" using SD R QX1 by linarith
    finally show ?thesis .
  qed
  have D1: "D < Q + 20" using up Spos by (simp add: mult_less_cancel_left_pos)
  have D2: "- (Q + 20) < D" using low Spos by (simp only: mult_less_cancel_left_pos)
  have dvdQ: "20 dvd Q" using assms(2) unfolding Q_def by (metis of_nat_dvd_iff of_nat_numeral)
  then obtain c where c: "Q = 20 * c" by (auto simp: dvd_def)
  define k where "k = P - 2 * T * c"
  have D20: "D = 20 * k" by (simp add: D_def c k_def algebra_simps)
  have absD: "\<bar>D\<bar> \<le> Q" using D1 D2 unfolding D20 c by presburger
  have "D = 2 * (10 * P - T * Q)" by (simp add: D_def algebra_simps)
  then have "2 * \<bar>10 * P - T * Q\<bar> = \<bar>D\<bar>" by (simp only: abs_mult)
  then show ?thesis using absD by (simp add: P_def T_def Q_def)
qed

lemma digit_zero_iff:
  assumes "d < 10"
  shows "digit d = CHR ''0'' \<longleftrightarrow> d = 0"
proof -
  have "d \<in> {0, 1, 2, 3, 4, 5, 6, 7, 8, 9}" using assms by auto
  then show ?thesis by (auto simp: digit_def)
qed

lemma strip_point_digit:
  "strip_dot_zero (xs @ ''.'' @ [c]) = (if c = CHR ''0'' then xs else xs @ ''.'' @ [c])"
  by (simp add: strip_dot_zero_def suffix_to_prefix)

lemma strip_toFixed1:
  "strip_dot_zero (toFixed1 (m, sh)) = one_decimal ((20 * m + 2 ^ sh) div 2 ^ (sh + 1))"
  by (simp add: toFixed1_def Let_def strip_point_digit one_decimal_def digit_zero_iff
        del: append.simps power_Suc)

lemma shift_bound:
  fixes m k q :: nat
  assumes "m < 2 ^ Suc k" "k \<le> 52" "q < 2 ^ (53 - k)"
  shows "q < 2 ^ (52 - ilog2 m + 1)"
proof -
  have "ilog2 m \<le> k" using assms(1) by (rule ilog2_bound)
  then have "53 - k \<le> 52 - ilog2 m + 1" using assms(2) by simp
  then have "(2::nat) ^ (53 - k) \<le> 2 ^ (52 - ilog2 m + 1)" by (intro power_increasing) simp_all
  then show ?thesis using assms(3) by simp
qed

lemma thousands:
  assumes "1000 \<le> n" "n < 1000000"
  shows "\<exists>t. formatNumber (OfNumber (Number n)) = Some (one_decimal t @ ''K'') \<and> \<bar>n - 100 * int t\<bar> \<le> 50"
proof -
  define p where "p = nat n"
  define sh where "sh = 52 - ilog2 (p div 1000)"
  define t where "t = (20 * round_half_even (p * 2 ^ sh) 1000 + 2 ^ sh) div 2 ^ (sh + 1)"
  have n: "n = int p" using assms(1) by (simp add: p_def)
  have "p div 1000 < 2 ^ Suc 9" using assms(2) by (simp add: p_def)
  then have big: "(1000::nat) < 2 ^ (sh + 1)"
    unfolding sh_def by (rule shift_bound) simp_all
  have "2 * \<bar>10 * int p - int t * int 1000\<bar> \<le> int 1000"
    unfolding t_def using big by (intro scaled_tenths) simp_all
  then have close: "\<bar>n - 100 * int t\<bar> \<le> 50" unfolding n by simp
  have "formatNumber (OfNumber (Number n)) = Some (one_decimal t @ ''K'')"
    using assms
    by (simp add: formatNumber_def isSafeInteger_def double_div_def Let_def strip_toFixed1
          p_def sh_def t_def del: power_Suc)
  then show ?thesis using close by blast
qed

lemma millions:
  assumes "1000000 \<le> n" "n < 2 ^ 53"
  shows "\<exists>t. formatNumber (OfNumber (Number n)) = Some (one_decimal t @ ''M'')
           \<and> \<bar>n - 100000 * int t\<bar> \<le> 50000"
proof -
  define p where "p = nat n"
  define sh where "sh = 52 - ilog2 (p div 1000000)"
  define t where "t = (20 * round_half_even (p * 2 ^ sh) 1000000 + 2 ^ sh) div 2 ^ (sh + 1)"
  have n: "n = int p" using assms(1) by (simp add: p_def)
  have "p < 2 ^ 53" using assms(2) by (simp add: p_def)
  then have "p div 1000000 < 2 ^ Suc 33" by (intro less_mult_imp_div_less) simp
  then have big: "(1000000::nat) < 2 ^ (sh + 1)"
    unfolding sh_def by (rule shift_bound) simp_all
  have "2 * \<bar>10 * int p - int t * int 1000000\<bar> \<le> int 1000000"
    unfolding t_def using big by (intro scaled_tenths) simp_all
  then have close: "\<bar>n - 100000 * int t\<bar> \<le> 50000" unfolding n by simp
  have "formatNumber (OfNumber (Number n)) = Some (one_decimal t @ ''M'')"
    using assms
    by (simp add: formatNumber_def isSafeInteger_def double_div_def Let_def strip_toFixed1
          p_def sh_def t_def del: power_Suc)
  then show ?thesis using close by blast
qed

lemmas format_eval = formatNumber_def isSafeInteger_def double_div_def Let_def ilog2.simps
  round_half_even_def
  strip_toFixed1 one_decimal_def show_nat.simps digit_def show_int_def

text \<open>
  Claim C9. \<open>formatNumber\<close> maps 999 to \<open>"999"\<close>, 1500 to \<open>"1.5K"\<close> and 2000000 to
  \<open>"2M"\<close>. A safe integer below 1000 is printed as it is. From 1000 on the result is the
  input scaled by a thousand, and from a million on by a million (for safe integers),
  written to one decimal place within half a tenth of the scaled value, a trailing \<open>.0\<close>
  suppressed, followed by \<open>K\<close> or \<open>M\<close>.
\<close>

theorem formatNumber_abbreviates:
  "formatNumber (OfNumber (Number 999)) = Some ''999''
   \<and> formatNumber (OfNumber (Number 1500)) = Some ''1.5K''
   \<and> formatNumber (OfNumber (Number 2000000)) = Some ''2M''
   \<and> (- (2 ^ 53) < n \<and> n < 1000 \<longrightarrow> formatNumber (OfNumber (Number n)) = Some (show_int n))
   \<and> (1000 \<le> n \<and> n < 1000000 \<longrightarrow>
        (\<exists>t. formatNumber (OfNumber (Number n)) = Some (one_decimal t @ ''K'')
             \<and> \<bar>n - 100 * int t\<bar> \<le> 50))
   \<and> (1000000 \<le> n \<and> n < 2 ^ 53 \<longrightarrow>
        (\<exists>t. formatNumber (OfNumber (Number n)) = Some (one_decimal t @ ''M'')
             \<and> \<bar>n - 100000 * int t\<bar> \<le> 50000))"
proof (intro conjI impI)
  show "formatNumber (OfNumber (Number 999)) = Some ''999''" by (simp add: format_eval)
  show "formatNumber (OfNumber (Number 1500)) = Some ''1.5K''" by (simp add: format_eval)
  show "formatNumber (OfNumber (Number 2000000)) = Some ''2M''" by (simp add: format_eval)
  show "formatNumber (OfNumber (Number n)) = Some (show_int n)" if "- (2 ^ 53) < n \<and> n < 1000"
  proof -
    have "\<bar>n\<bar> < 2 ^ 53" using that by simp linarith
    then show ?thesis using that by (simp add: formatNumber_def isSafeInteger_def)
  qed
  show "\<exists>t. formatNumber (OfNumber (Number n)) = Some (one_decimal t @ ''K'')
          \<and> \<bar>n - 100 * int t\<bar> \<le> 50"
    if "1000 \<le> n \<and> n < 1000000"
    using that thousands by blast
  show "\<exists>t. formatNumber (OfNumber (Number n)) = Some (one_decimal t @ ''M'')
          \<and> \<bar>n - 100000 * int t\<bar> \<le> 50000"
    if "1000000 \<le> n \<and> n < 2 ^ 53"
    using that millions by blast
qed

theorem formatNumber_abbreviates_witness:
  "formatNumber (OfNumber (Number (-5))) = Some (show_int (-5))
   \<and> show_int (-5) = ''-5''
   \<and> (\<exists>t. formatNumber (OfNumber (Number 1234)) = Some (one_decimal t @ ''K'')
           \<and> \<bar>1234 - 100 * int t\<bar> \<le> 50)
   \<and> (\<exists>t. formatNumber (OfNumber (Number 1234567)) = Some (one_decimal t @ ''M'')
           \<and> \<bar>1234567 - 100000 * int t\<bar> \<le> 50000)"
proof -
  have digits: "show_int (-5) = ''-5''"
    by (simp add: show_int_def show_nat.simps digit_def)
  show ?thesis
    using formatNumber_abbreviates [of "-5"] formatNumber_abbreviates [of 1234]
      formatNumber_abbreviates [of 1234567] digits
    by simp
qed

end
